theory Spec2Isabelle
  imports Main "HOL-Library.Sublist" "HOL-Library.Word"
begin

section \<open>SurahKit: the partition cache and the query layer of \<open>surahkit.js\<close>\<close>

subsection \<open>JavaScript strings and values\<close>

text \<open>
  A JavaScript string is a sequence of UTF-16 code units. \<open>lit\<close> writes one whose
  characters are ASCII.
\<close>

type_synonym jsstring = "16 word list"

definition lit :: "string \<Rightarrow> jsstring" where
  "lit s = map of_char s"

text \<open>
  \<open>s.trim()\<close> strips the ECMAScript white space and line terminators from both ends: TAB,
  LF, VT, FF, CR, SPACE, NO-BREAK SPACE, U+1680, U+2000 to U+200A, U+2028, U+2029,
  U+202F, U+205F, U+3000 and U+FEFF.
\<close>

definition isWhiteSpace :: "16 word \<Rightarrow> bool" where
  "isWhiteSpace c =
     (c \<in> {0x9, 0xA, 0xB, 0xC, 0xD, 0x20, 0xA0, 0x1680, 0x2028, 0x2029, 0x202F, 0x205F,
            0x3000, 0xFEFF} \<or> (0x2000 \<le> c \<and> c \<le> 0x200A))"

definition trim :: "jsstring \<Rightarrow> jsstring" where
  "trim s = rev (dropWhile isWhiteSpace (rev (dropWhile isWhiteSpace s)))"

text \<open>
  \<open>s.toLowerCase()\<close> is the Unicode default lower-casing, which the language runtime
  supplies: each character is replaced by its lowercase mapping, which may be longer than
  the character (U+0130 becomes U+0069 U+0307), and a capital sigma U+03A3 becomes the
  final sigma U+03C2 when a cased letter precedes it and none follows it (characters that
  are ignorable for case skipped on both sides), and U+03C3 otherwise. The tables below
  are those of Unicode on the characters U+0000 to U+00FF, U+0130, U+0391 to U+03A1 and
  U+03A3 to U+03CE, on which the function is exact; other characters are left as they
  are, and strings that contain them are outside what the function models. The
  properties below that hold for all strings use of \<open>toLowerCase\<close> only that it is a
  function and what it does to ASCII strings; its tables matter where it is evaluated on
  the strings of an example.
\<close>

definition lowerMapping :: "16 word \<Rightarrow> jsstring" where
  "lowerMapping c =
     (if (0x41 \<le> c \<and> c \<le> 0x5A) \<or> (0xC0 \<le> c \<and> c \<le> 0xD6) \<or> (0xD8 \<le> c \<and> c \<le> 0xDE) \<or>
         (0x391 \<le> c \<and> c \<le> 0x3A1) \<or> (0x3A3 \<le> c \<and> c \<le> 0x3AB)
      then [c + 0x20]
      else if c = 0x130 then [0x69, 0x307]
      else [c])"

definition cased :: "16 word \<Rightarrow> bool" where
  "cased c =
     ((0x41 \<le> c \<and> c \<le> 0x5A) \<or> (0x61 \<le> c \<and> c \<le> 0x7A) \<or> c = 0xAA \<or> c = 0xB5 \<or> c = 0xBA \<or>
      (0xC0 \<le> c \<and> c \<le> 0xD6) \<or> (0xD8 \<le> c \<and> c \<le> 0xF6) \<or> (0xF8 \<le> c \<and> c \<le> 0xFF) \<or>
      c = 0x130 \<or> (0x391 \<le> c \<and> c \<le> 0x3A1) \<or> (0x3A3 \<le> c \<and> c \<le> 0x3CE))"

definition caseIgnorable :: "16 word \<Rightarrow> bool" where
  "caseIgnorable c =
     (c \<in> {0x27, 0x2E, 0x3A, 0x5E, 0x60, 0xA8, 0xAD, 0xAF, 0xB4, 0xB7, 0xB8})"

text \<open>
  Whether the nearest character that is not ignorable for case is a cased letter; the
  argument lists the characters on one side, nearest first.
\<close>

fun nextToCased :: "jsstring \<Rightarrow> bool" where
  "nextToCased [] = False"
| "nextToCased (c # cs) = (if caseIgnorable c then nextToCased cs else cased c)"

text \<open>Lower-casing what is left of the string, given what came before it, nearest first.\<close>

fun lowerFrom :: "jsstring \<Rightarrow> jsstring \<Rightarrow> jsstring" where
  "lowerFrom pre [] = []"
| "lowerFrom pre (c # post) =
     (if c = 0x3A3 then
        (if nextToCased pre \<and> \<not> nextToCased post then [0x3C2] else [0x3C3])
      else lowerMapping c) @ lowerFrom (c # pre) post"

definition toLowerCase :: "jsstring \<Rightarrow> jsstring" where
  "toLowerCase s = lowerFrom [] s"

text \<open>\<open>s.includes(t)\<close>: \<open>t\<close> occurs in \<open>s\<close> as a contiguous run of code units.\<close>

fun startsWith :: "jsstring \<Rightarrow> jsstring \<Rightarrow> bool" where
  "startsWith s [] = True"
| "startsWith [] (d # t) = False"
| "startsWith (c # s) (d # t) = (c = d \<and> startsWith s t)"

fun includes_str :: "jsstring \<Rightarrow> jsstring \<Rightarrow> bool" where
  "includes_str [] t = (t = [])"
| "includes_str (c # s) t = (startsWith (c # s) t \<or> includes_str s t)"

text \<open>
  The values an \<open>id\<close> argument can take: \<open>undefined\<close>, \<open>null\<close>, a string, or a number.
  Numbers are the integers (below \<open>10^21\<close> in size JavaScript prints them in plain decimal).
\<close>

datatype jsval = Undefined | Null | Str jsstring | Num int

text \<open>\<open>!v\<close>: the values that JavaScript treats as false.\<close>

fun falsy :: "jsval \<Rightarrow> bool" where
  "falsy Undefined = True"
| "falsy Null = True"
| "falsy (Str s) = (s = [])"
| "falsy (Num n) = (n = 0)"

definition digitChar :: "nat \<Rightarrow> 16 word" where
  "digitChar d = of_nat (48 + d)"

fun digits :: "nat \<Rightarrow> jsstring" where
  "digits n = (if n < 10 then [digitChar n] else digits (n div 10) @ [digitChar (n mod 10)])"

declare digits.simps [simp del]

text \<open>\<open>String(v)\<close>.\<close>

fun String :: "jsval \<Rightarrow> jsstring" where
  "String Undefined = lit ''undefined''"
| "String Null = lit ''null''"
| "String (Str s) = s"
| "String (Num n) = (if n < 0 then 0x2D # digits (nat (- n)) else digits (nat n))"

subsection \<open>Data model\<close>

record SurahItem =
  item_id :: jsstring
  surah :: jsstring
  verses :: jsstring
  item_text :: jsstring

text \<open>
  The error a rejected promise carries, one constructor for each \<open>throw\<close> of the source and
  for each rejection that the source's \<open>catch\<close> rethrows unchanged.
\<close>

datatype error =
    LanguageRequired
  | SurahIdRequired
  | LanguageFileNotFound jsstring nat
  | FetchFailed jsstring
  | JsonFailed jsstring
  | SurahNotFound jsval "jsstring option"

text \<open>
  The promise \<open>fetchAndCachePromise\<close> of one retrieval. It waits at \<open>await fetch(url)\<close>,
  then at \<open>await res.json()\<close>, and settles once.
\<close>

datatype phase = AwaitFetch | AwaitJson | Fulfilled "SurahItem list" | Rejected error

record retrieval =
  key :: jsstring
  phase :: phase

text \<open>A value of the module's \<open>cache\<close> map: the pending promise, or the data.\<close>

datatype entry = Pending nat | Data "SurahItem list"

text \<open>
  The state: the \<open>cache\<close> map, the promises created so far (a promise is named by its
  index), and the URLs handed to \<open>fetch\<close> so far, in order.
\<close>

record state =
  cache :: "jsstring \<rightharpoonup> entry"
  promises :: "retrieval list"
  fetched :: "jsstring list"

definition init :: state where
  "init = \<lparr>cache = Map.empty, promises = [], fetched = []\<rparr>"

text \<open>
  The promise an \<open>async\<close> method returns: already settled, or waiting for a retrieval and
  then running the rest of the method's body on the data.
\<close>

datatype 'a async = Settled "error + 'a" | Awaiting nat "SurahItem list \<Rightarrow> error + 'a"

text \<open>What awaiting the promise yields in a state; \<open>None\<close> while it is pending.\<close>

fun outcome :: "state \<Rightarrow> 'a async \<Rightarrow> (error + 'a) option" where
  "outcome s (Settled r) = Some r"
| "outcome s (Awaiting p k) =
     (if p < length (promises s) then
        (case phase (promises s ! p) of
           Fulfilled d \<Rightarrow> Some (k d)
         | Rejected e \<Rightarrow> Some (Inl e)
         | _ \<Rightarrow> None)
      else None)"

subsection \<open>The partition cache\<close>

definition url :: "jsstring \<Rightarrow> jsstring" where
  "url safeLanguage =
     lit ''https://cdn.jsdelivr.net/npm/@mdkva/surahkit/data/'' @ safeLanguage @ lit ''.json''"

text \<open>
  \<open>loadAll(language)\<close>; \<open>None\<close> is an absent argument (\<open>undefined\<close> or \<open>null\<close>). A new
  retrieval runs up to its first \<open>await\<close> inside the call: \<open>fetch\<close> is called (it returns a
  promise; a failure is a rejection of that promise, later), then the promise of the
  retrieval is stored in the cache.
\<close>

definition loadAll :: "state \<Rightarrow> jsstring option \<Rightarrow> state \<times> SurahItem list async" where
  "loadAll s language =
     (case language of
        None \<Rightarrow> (s, Settled (Inl LanguageRequired))
      | Some l \<Rightarrow>
          if l = [] then (s, Settled (Inl LanguageRequired))
          else
            let safeLanguage = toLowerCase (trim l) in
            (case cache s safeLanguage of
               Some (Data d) \<Rightarrow> (s, Settled (Inr d))
             | Some (Pending p) \<Rightarrow> (s, Awaiting p Inr)
             | None \<Rightarrow>
                 let p = length (promises s) in
                 (s\<lparr>cache := (cache s)(safeLanguage \<mapsto> Pending p),
                    promises := promises s @ [\<lparr>key = safeLanguage, phase = AwaitFetch\<rparr>],
                    fetched := fetched s @ [url safeLanguage]\<rparr>,
                  Awaiting p Inr)))"

text \<open>The \<open>catch\<close> block of a retrieval: delete the key, reject the promise.\<close>

definition fail :: "state \<Rightarrow> nat \<Rightarrow> error \<Rightarrow> state" where
  "fail s p e =
     s\<lparr>cache := (cache s)((key (promises s ! p)) := None),
       promises := (promises s)[p := (promises s ! p)\<lparr>phase := Rejected e\<rparr>]\<rparr>"

text \<open>How \<open>fetch(url)\<close> settles: rejected, or a response with its \<open>ok\<close> and \<open>status\<close>.\<close>

datatype response = NetworkError jsstring | Response bool nat

definition fetchSettled :: "state \<Rightarrow> nat \<Rightarrow> response \<Rightarrow> state" where
  "fetchSettled s p r =
     (if p < length (promises s) \<and> phase (promises s ! p) = AwaitFetch then
        (case r of
           NetworkError m \<Rightarrow> fail s p (FetchFailed m)
         | Response ok status \<Rightarrow>
             if \<not> ok then fail s p (LanguageFileNotFound (key (promises s ! p)) status)
             else s\<lparr>promises := (promises s)[p := (promises s ! p)\<lparr>phase := AwaitJson\<rparr>]\<rparr>)
      else s)"

text \<open>How \<open>res.json()\<close> settles: rejected, or the parsed data.\<close>

datatype body = Unparseable jsstring | Parsed "SurahItem list"

definition jsonSettled :: "state \<Rightarrow> nat \<Rightarrow> body \<Rightarrow> state" where
  "jsonSettled s p b =
     (if p < length (promises s) \<and> phase (promises s ! p) = AwaitJson then
        (case b of
           Unparseable m \<Rightarrow> fail s p (JsonFailed m)
         | Parsed d \<Rightarrow>
             s\<lparr>cache := (cache s)((key (promises s ! p)) \<mapsto> Data d),
               promises := (promises s)[p := (promises s ! p)\<lparr>phase := Fulfilled d\<rparr>]\<rparr>)
      else s)"

definition clearCache :: "state \<Rightarrow> state" where
  "clearCache s = s\<lparr>cache := Map.empty\<rparr>"

subsection \<open>The query layer\<close>

text \<open>
  \<open>const quran = await this.loadAll(language); rest\<close> inside an \<open>async\<close> method: a rejection
  of \<open>loadAll\<close> is the method's rejection, otherwise \<open>rest\<close> runs on the data.
\<close>

fun awaitThen :: "state \<times> 'a async \<Rightarrow> ('a \<Rightarrow> error + 'b) \<Rightarrow> state \<times> 'b async" where
  "awaitThen (s, Settled (Inl e)) rest = (s, Settled (Inl e))"
| "awaitThen (s, Settled (Inr quran)) rest = (s, Settled (rest quran))"
| "awaitThen (s, Awaiting p k) rest =
     (s, Awaiting p (\<lambda>d. case k d of Inl e \<Rightarrow> Inl e | Inr quran \<Rightarrow> rest quran))"

definition searchById :: "state \<Rightarrow> jsstring option \<Rightarrow> jsval \<Rightarrow> state \<times> SurahItem async" where
  "searchById s language id' =
     (if falsy id' then (s, Settled (Inl SurahIdRequired))
      else
        awaitThen (loadAll s language) (\<lambda>quran.
          let surahId = trim (String id') in
          case find (\<lambda>s. item_id s = surahId) quran of
            None \<Rightarrow> Inl (SurahNotFound id' language)
          | Some surah' \<Rightarrow> Inr surah'))"

definition searchByIds ::
  "state \<Rightarrow> jsstring option \<Rightarrow> jsval list option \<Rightarrow> state \<times> SurahItem list async" where
  "searchByIds s language ids =
     (case ids of
        None \<Rightarrow> (s, Settled (Inr []))
      | Some ids' \<Rightarrow>
          if length ids' = 0 then (s, Settled (Inr []))
          else
            awaitThen (loadAll s language) (\<lambda>quran.
              let idSet = set (map (\<lambda>i. trim (String i)) ids') in
              Inr (filter (\<lambda>s. item_id s \<in> idSet) quran)))"

definition searchByName ::
  "state \<Rightarrow> jsstring option \<Rightarrow> jsstring option \<Rightarrow> state \<times> SurahItem list async" where
  "searchByName s language keyword =
     (case keyword of
        None \<Rightarrow> (s, Settled (Inr []))
      | Some keyword' \<Rightarrow>
          if keyword' = [] then (s, Settled (Inr []))
          else
            awaitThen (loadAll s language) (\<lambda>quran.
              let term = toLowerCase keyword' in
              Inr (filter (\<lambda>s. includes_str (toLowerCase (surah s)) term) quran)))"

definition searchByPhrase ::
  "state \<Rightarrow> jsstring option \<Rightarrow> jsstring option \<Rightarrow> state \<times> SurahItem list async" where
  "searchByPhrase s language phrase =
     (case phrase of
        None \<Rightarrow> (s, Settled (Inr []))
      | Some phrase' \<Rightarrow>
          if phrase' = [] then (s, Settled (Inr []))
          else
            awaitThen (loadAll s language) (\<lambda>quran.
              let term = toLowerCase phrase' in
              Inr (filter (\<lambda>s. includes_str (toLowerCase (item_text s)) term) quran)))"

subsection \<open>Interleavings\<close>

text \<open>
  One thread of control: the program's history is a sequence of \<open>loadAll\<close> and \<open>clearCache\<close>
  calls by the host and of settlements of the retrievals' two \<open>await\<close>s. A settlement
  of a promise that is not waiting for it does not happen. The second component collects
  what each \<open>loadAll\<close> call was given and the promise it returned, latest first.
\<close>

datatype event =
    CallLoadAll "jsstring option"
  | FetchSettles nat response
  | JsonSettles nat body
  | CallClearCache

type_synonym calls = "(jsstring option \<times> SurahItem list async) list"

fun step :: "state \<times> calls \<Rightarrow> event \<Rightarrow> state \<times> calls" where
  "step (s, hs) (CallLoadAll language) =
     (case loadAll s language of (s', h) \<Rightarrow> (s', (language, h) # hs))"
| "step (s, hs) (FetchSettles p r) = (fetchSettled s p r, hs)"
| "step (s, hs) (JsonSettles p b) = (jsonSettled s p b, hs)"
| "step (s, hs) CallClearCache = (clearCache s, hs)"

definition run :: "state \<times> calls \<Rightarrow> event list \<Rightarrow> state \<times> calls" where
  "run c evs = foldl step c evs"

text \<open>A retrieval that has not settled yet.\<close>

definition inFlight :: "state \<Rightarrow> nat \<Rightarrow> bool" where
  "inFlight s p =
     (p < length (promises s) \<and>
      (phase (promises s ! p) = AwaitFetch \<or> phase (promises s ! p) = AwaitJson))"







subsection \<open>ASCII letters\<close>

text \<open>
  The lowercase of an ASCII character, and two ASCII strings that are the same up to the
  case of their letters.
\<close>

definition asciiLower :: "16 word \<Rightarrow> 16 word" where
  "asciiLower c = (if 0x41 \<le> c \<and> c \<le> 0x5A then c + 0x20 else c)"

definition sameAsciiCase :: "jsstring \<Rightarrow> jsstring \<Rightarrow> bool" where
  "sameAsciiCase a b =
     (length a = length b \<and>
      (\<forall>i<length a. a ! i < 0x80 \<and> b ! i < 0x80 \<and> asciiLower (a ! i) = asciiLower (b ! i)))"

subsection \<open>A small dataset\<close>

text \<open>A partition of three records, and the state after it has been loaded as \<open>english\<close>.\<close>

definition opener :: SurahItem where
  "opener = \<lparr>item_id = (lit ''1''), surah = (lit ''The Opener''), verses = (lit ''7''), item_text = (lit ''In the name of God'')\<rparr>"
definition yasin :: SurahItem where
  "yasin = \<lparr>item_id = (lit ''36''), surah = (lit ''Ya-Sin''), verses = (lit ''83''), item_text = (lit ''Ya, Seen. By the wise Quran'')\<rparr>"
definition mankind :: SurahItem where
  "mankind = \<lparr>item_id = (lit ''114''), surah = (lit ''Mankind''), verses = (lit ''6''), item_text = (lit ''Say: I seek refuge in the Lord of mankind'')\<rparr>"

definition loaded :: state where
  "loaded = fst (run (init, [])
     [CallLoadAll (Some (lit ''english'')), FetchSettles 0 (Response True 200),
      JsonSettles 0 (Parsed [opener, yasin, mankind])])"

text \<open>
  A partition of one record whose title and text are the capital letters omicron, delta,
  omicron, sigma, and the state after it has been loaded as \<open>greek\<close>.
\<close>

definition odos :: SurahItem where
  "odos = \<lparr>item_id = lit ''1'', surah = [0x39F, 0x394, 0x39F, 0x3A3], verses = lit ''4'',
            item_text = [0x39F, 0x394, 0x39F, 0x3A3]\<rparr>"

definition greek :: state where
  "greek = fst (run (init, [])
     [CallLoadAll (Some (lit ''greek'')), FetchSettles 0 (Response True 200),
      JsonSettles 0 (Parsed [odos])])"

subsection \<open>Callers of one key\<close>





subsection \<open>Two histories\<close>


definition asked :: state where
  "asked = fst (loadAll init (Some (lit ''english'')))"



subsection \<open>Histories without a race\<close>



section \<open>Properties\<close>

subsection \<open>Strings\<close>

lemma unat_of_char: "unat (of_char c :: 16 word) = of_char c"
proof -
  have lt: "(of_char c :: nat) < 65536"
    using nat_of_char_less_256 [of c] by linarith
  have "(of_char c :: 16 word) = of_nat (of_char c)"
    by (simp add: of_nat_of_char)
  then have "unat (of_char c :: 16 word) = unat (of_nat (of_char c :: nat) :: 16 word)"
    by simp
  also have "\<dots> = of_char c"
    by (simp add: unat_of_nat mod_less [OF lt])
  finally show ?thesis .
qed

lemma of_char_word_eq_iff: "(of_char c :: 16 word) = of_char d \<longleftrightarrow> c = d"
proof
  assume "(of_char c :: 16 word) = of_char d"
  then have "unat (of_char c :: 16 word) = unat (of_char d :: 16 word)" by simp
  then have "(of_char c :: nat) = of_char d" by (simp only: unat_of_char)
  then show "c = d" by simp
qed simp

lemma lit_eq_iff [simp]: "lit a = lit b \<longleftrightarrow> a = b"
proof -
  have "inj (of_char :: char \<Rightarrow> 16 word)"
    by (rule injI) (simp add: of_char_word_eq_iff)
  then show ?thesis
    by (simp add: lit_def inj_map_eq_map)
qed

lemma lit_Nil_iff [simp]: "lit a = [] \<longleftrightarrow> a = []"
  by (simp add: lit_def)

lemma toLowerCase_Nil: "toLowerCase [] = []"
  by (simp add: toLowerCase_def)

lemma trim_all_whitespace:
  assumes "\<forall>c\<in>set l. isWhiteSpace c"
  shows "trim l = []"
proof -
  from assms have h: "dropWhile isWhiteSpace l = []"
    by (simp add: dropWhile_eq_Nil_conv)
  show ?thesis
    unfolding trim_def h by simp
qed

lemma trim_surrounding:
  assumes a: "\<forall>c\<in>set a. isWhiteSpace c" and b: "\<forall>c\<in>set b. isWhiteSpace c"
  shows "trim (a @ m @ b) = trim m"
proof (cases "\<forall>c\<in>set m. isWhiteSpace c")
  case True
  with a b have "\<forall>c\<in>set (a @ m @ b). isWhiteSpace c" by auto
  then have "trim (a @ m @ b) = []" by (rule trim_all_whitespace)
  with True show ?thesis by (simp add: trim_all_whitespace)
next
  case False
  then have ne: "dropWhile isWhiteSpace m \<noteq> []" by simp
  from a have "dropWhile isWhiteSpace (a @ m @ b) = dropWhile isWhiteSpace (m @ b)"
    by simp
  also from False have "\<dots> = dropWhile isWhiteSpace m @ b"
    by (auto simp: dropWhile_append)
  finally have "rev (dropWhile isWhiteSpace (a @ m @ b)) = rev b @ rev (dropWhile isWhiteSpace m)"
    by simp
  moreover have "dropWhile isWhiteSpace (rev b @ rev (dropWhile isWhiteSpace m))
      = dropWhile isWhiteSpace (rev (dropWhile isWhiteSpace m))"
    by (rule dropWhile_append2) (use b in simp)
  ultimately show ?thesis by (simp add: trim_def)
qed

text \<open>On ASCII strings \<open>toLowerCase\<close> maps each character on its own.\<close>

lemma lowerMapping_ascii: "c < 0x80 \<Longrightarrow> lowerMapping c = [asciiLower c]"
  by (auto simp: lowerMapping_def asciiLower_def word_le_nat_alt word_less_nat_alt)

lemma lowerFrom_ascii: "\<forall>c\<in>set s. c < 0x80 \<Longrightarrow> lowerFrom pre s = map asciiLower s"
  by (induction s arbitrary: pre) (auto simp: lowerMapping_ascii)

lemma toLowerCase_ascii: "\<forall>c\<in>set s. c < 0x80 \<Longrightarrow> toLowerCase s = map asciiLower s"
  by (simp add: toLowerCase_def lowerFrom_ascii)

lemma upper_plus:
  assumes "0x41 \<le> c" and "c \<le> (0x5A :: 16 word)"
  shows "unat (c + 0x20) = unat c + 32"
proof -
  from assms have "unat c \<le> 90" by (simp add: word_le_nat_alt)
  then have "unat c + unat (0x20 :: 16 word) < 2 ^ LENGTH(16)" by simp
  then have "unat (c + 0x20) = unat c + unat (0x20 :: 16 word)"
    by (rule unat_add_lem [THEN iffD1])
  then show ?thesis by simp
qed

lemma isWhiteSpace_asciiLower: "isWhiteSpace (asciiLower c) = isWhiteSpace c"
proof (cases "0x41 \<le> c \<and> c \<le> 0x5A")
  case False
  then show ?thesis by (auto simp: asciiLower_def)
next
  case True
  then have u: "unat (c + 0x20) = unat c + 32" by (simp add: upper_plus)
  from True have r: "65 \<le> unat c" "unat c \<le> 90" by (simp_all add: word_le_nat_alt)
  have "\<not> isWhiteSpace c"
    using r by (auto simp: isWhiteSpace_def word_le_nat_alt)
  moreover have "\<not> isWhiteSpace (c + 0x20)"
    using r u by (auto simp: isWhiteSpace_def word_le_nat_alt word_eq_iff_unsigned [where ?'a = nat])
  ultimately show ?thesis using True by (simp add: asciiLower_def)
qed

lemma trim_map_asciiLower: "trim (map asciiLower s) = map asciiLower (trim s)"
proof -
  have c: "isWhiteSpace \<circ> asciiLower = isWhiteSpace"
    by (rule ext) (simp add: isWhiteSpace_asciiLower)
  show ?thesis
    by (simp add: trim_def dropWhile_map rev_map c)
qed

lemma set_trim: "set (trim s) \<subseteq> set s"
  by (auto simp: trim_def dest!: set_dropWhileD)

lemma sameAsciiCase_key:
  assumes "sameAsciiCase m1 m2"
  shows "toLowerCase (trim m1) = toLowerCase (trim m2)"
proof -
  from assms have len: "length m1 = length m2"
    and a1: "\<forall>c\<in>set m1. c < 0x80" and a2: "\<forall>c\<in>set m2. c < 0x80"
    and eq: "map asciiLower m1 = map asciiLower m2"
    by (auto simp: sameAsciiCase_def list_eq_iff_nth_eq in_set_conv_nth)
  from a1 set_trim [of m1] have "\<forall>c\<in>set (trim m1). c < 0x80" by blast
  then have "toLowerCase (trim m1) = trim (map asciiLower m1)"
    by (simp add: toLowerCase_ascii trim_map_asciiLower)
  moreover from a2 set_trim [of m2] have "\<forall>c\<in>set (trim m2). c < 0x80" by blast
  then have "toLowerCase (trim m2) = trim (map asciiLower m2)"
    by (simp add: toLowerCase_ascii trim_map_asciiLower)
  ultimately show ?thesis using eq by simp
qed

lemma outcome_awaitThen:
  "outcome t (snd (awaitThen (s, h) rest)) =
     (case outcome t h of
        None \<Rightarrow> None
      | Some (Inl e) \<Rightarrow> Some (Inl e)
      | Some (Inr quran) \<Rightarrow> Some (rest quran))"
proof (cases h)
  case (Settled r)
  then show ?thesis by (cases r) simp_all
next
  case (Awaiting p k)
  then show ?thesis by (auto split: phase.split sum.split)
qed

lemma fst_awaitThen: "fst (awaitThen c rest) = fst c"
  by (induction c rest rule: awaitThen.induct) simp_all

lemma count_list_filter:
  "count_list (filter P xs) r = (if P r then count_list xs r else 0)"
  by (induction xs) auto

subsection \<open>The dataset, loaded\<close>

lemma key_english: "toLowerCase (trim (lit ''english'')) = (lit ''english'')"
  by code_simp

lemma loaded_eq:
  "loaded = \<lparr>cache = [(lit ''english'') \<mapsto> Data [opener, yasin, mankind]],
             promises = [\<lparr>key = (lit ''english''), phase = Fulfilled [opener, yasin, mankind]\<rparr>],
             fetched = [url (lit ''english'')]\<rparr>"
  by (simp add: loaded_def run_def init_def loadAll_def fetchSettled_def jsonSettled_def
      key_english Let_def)

lemma key_English: "toLowerCase (trim (lit ''English '')) = (lit ''english'')"
  by code_simp

lemma loadAll_loaded:
  "loadAll loaded (Some (lit ''english'')) = (loaded, Settled (Inr [opener, yasin, mankind]))"
  by (simp add: loaded_eq loadAll_def key_english Let_def)

lemma trims: "trim (lit ''36'') = (lit ''36'')" "trim (lit ''1'') = (lit ''1'')"
  by code_simp+

subsection \<open>Argument checks\<close>

text \<open>
  C8. \<open>loadAll\<close> rejects with "Language is required." when \<open>language\<close> is absent or the
  empty string, and the test is on the argument as given, before \<open>trim\<close>: only the empty
  string itself is rejected. \<open>searchById\<close> with the id \<open>""\<close>, \<open>null\<close> or \<open>undefined\<close> rejects
  with "Surah ID is required." whatever the language, and in each case the state (cache,
  promises, fetches) is the one before the call.
\<close>

theorem input_validation:
  "loadAll s None = (s, Settled (Inl LanguageRequired)) \<and>
   loadAll s (Some []) = (s, Settled (Inl LanguageRequired)) \<and>
   (snd (loadAll s (Some l)) = Settled (Inl LanguageRequired) \<longleftrightarrow> l = []) \<and>
   searchById s language (Str []) = (s, Settled (Inl SurahIdRequired)) \<and>
   searchById s language Null = (s, Settled (Inl SurahIdRequired)) \<and>
   searchById s language Undefined = (s, Settled (Inl SurahIdRequired))"
  by (simp add: loadAll_def searchById_def Let_def split: option.split entry.split)

text \<open>
  C9. The number \<open>0\<close> as id is rejected like an absent id: \<open>searchById(language, 0)\<close> rejects
  with "Surah ID is required." and leaves the state as it was, so no retrieval starts.
\<close>

theorem searchById_zero:
  "searchById s language (Num 0) = (s, Settled (Inl SurahIdRequired))"
  by (simp add: searchById_def)

text \<open>
  C10. A language made of white space only is not rejected: it is not the empty string, its
  normalised key is the empty string, and when the cache has no entry for that key the
  call stores a pending promise under \<open>""\<close> and fetches the URL built from \<open>""\<close>.
\<close>

theorem whitespace_language:
  assumes "l \<noteq> []" and "\<forall>c\<in>set l. isWhiteSpace c" and "cache s [] = None"
  shows "toLowerCase (trim l) = [] \<and>
         loadAll s (Some l) =
           (s\<lparr>cache := (cache s)([] \<mapsto> Pending (length (promises s))),
              promises := promises s @ [\<lparr>key = [], phase = AwaitFetch\<rparr>],
              fetched := fetched s @ [url []]\<rparr>,
            Awaiting (length (promises s)) Inr)"
  using assms by (simp add: loadAll_def trim_all_whitespace toLowerCase_Nil Let_def)

theorem whitespace_language_witness:
  "loadAll init (Some (lit ''   '')) =
     (init\<lparr>cache := (cache init)([] \<mapsto> Pending 0),
           promises := [\<lparr>key = [], phase = AwaitFetch\<rparr>],
           fetched := [(lit ''https://cdn.jsdelivr.net/npm/@mdkva/surahkit/data/.json'')]\<rparr>,
      Awaiting 0 Inr)"
  using whitespace_language [of "(lit ''   '')" init]
  by (simp add: isWhiteSpace_def init_def url_def lit_def)

subsection \<open>Queries\<close>

text \<open>
  C4. \<open>searchById\<close> with an id that is not falsy, once \<open>loadAll\<close> has resolved to the
  partition \<open>quran\<close>: the call does to the state what \<open>loadAll\<close> does, and its promise
  settles. It fulfils with the first record of \<open>quran\<close> whose \<open>id\<close> is the string
  \<open>String(id).trim()\<close> (string equality, no record before it has that id), or rejects with
  "Surah with ID ... not found" when no record of \<open>quran\<close> has that id.
\<close>

theorem searchById_first_match:
  assumes "\<not> falsy id'" and "outcome t (snd (loadAll s language)) = Some (Inr quran)"
  shows "fst (searchById s language id') = fst (loadAll s language) \<and>
    (case outcome t (snd (searchById s language id')) of
       Some (Inr r) \<Rightarrow>
         (\<exists>i<length quran. quran ! i = r \<and> item_id r = trim (String id') \<and>
            (\<forall>j<i. item_id (quran ! j) \<noteq> trim (String id')))
     | Some (Inl e) \<Rightarrow>
         e = SurahNotFound id' language \<and> (\<forall>r\<in>set quran. item_id r \<noteq> trim (String id'))
     | None \<Rightarrow> False)"
proof -
  obtain s' h where l: "loadAll s language = (s', h)" by (cases "loadAll s language")
  with assms(2) have h: "outcome t h = Some (Inr quran)" by simp
  show ?thesis
  proof (cases "find (\<lambda>s. item_id s = trim (String id')) quran")
    case None
    then have "\<forall>r\<in>set quran. item_id r \<noteq> trim (String id')"
      by (simp add: find_None_iff)
    with assms(1) l h None show ?thesis
      by (simp add: searchById_def outcome_awaitThen fst_awaitThen)
  next
    case (Some r)
    then have "\<exists>i<length quran. quran ! i = r \<and> item_id r = trim (String id') \<and>
            (\<forall>j<i. item_id (quran ! j) \<noteq> trim (String id'))"
      by (auto simp: find_Some_iff)
    with assms(1) l h Some show ?thesis
      by (simp add: searchById_def outcome_awaitThen fst_awaitThen)
  qed
qed

theorem searchById_first_match_witness:
  "outcome loaded (snd (searchById loaded (Some (lit ''english'')) (Str (lit ''36'')))) = Some (Inr yasin)"
  using searchById_first_match [of "Str (lit ''36'')" loaded loaded "Some (lit ''english'')" "[opener, yasin, mankind]"]
  by (auto simp: loadAll_loaded trims opener_def yasin_def mankind_def nth_Cons' less_Suc_eq
      split: option.splits sum.splits if_splits)

lemma searchById_examples:
  "outcome loaded (snd (searchById loaded (Some (lit ''english'')) (Str (lit ''36'')))) = Some (Inr yasin)"
  "outcome loaded (snd (searchById loaded (Some (lit ''english'')) (Num 36))) = Some (Inr yasin)"
  "outcome loaded (snd (searchById loaded (Some (lit ''english'')) (Str (lit '' 36 '')))) = Some (Inr yasin)"
  "outcome loaded (snd (searchById loaded (Some (lit ''english'')) (Str (lit ''036''))))
     = Some (Inl (SurahNotFound (Str (lit ''036'')) (Some (lit ''english''))))"
  "outcome loaded (snd (searchById loaded (Some (lit ''english'')) (Str (lit ''99''))))
     = Some (Inl (SurahNotFound (Str (lit ''99'')) (Some (lit ''english''))))"
  by (simp_all add: searchById_def loadAll_loaded opener_def yasin_def mankind_def, code_simp+)

text \<open>
  C5. \<open>searchByIds\<close> with absent or empty \<open>ids\<close> fulfils with the empty sequence and leaves
  the state as it was. Otherwise, once \<open>loadAll\<close> has resolved to \<open>quran\<close>, it fulfils with
  the records of \<open>quran\<close> whose \<open>id\<close> is among the trimmed string forms of \<open>ids\<close>: a
  subsequence of \<open>quran\<close> in \<open>quran\<close>'s order, each such record as often as \<open>quran\<close> has
  it, whatever the order and the repetitions in \<open>ids\<close>.
\<close>

theorem searchByIds_filter:
  "searchByIds s language None = (s, Settled (Inr [])) \<and>
   searchByIds s language (Some []) = (s, Settled (Inr [])) \<and>
   (ids \<noteq> [] \<and> outcome t (snd (loadAll s language)) = Some (Inr quran) \<longrightarrow>
      fst (searchByIds s language (Some ids)) = fst (loadAll s language) \<and>
      (\<exists>found.
         outcome t (snd (searchByIds s language (Some ids))) = Some (Inr found) \<and>
         found = filter (\<lambda>r. item_id r \<in> (\<lambda>i. trim (String i)) ` set ids) quran \<and>
         subseq found quran \<and>
         (\<forall>r. count_list found r =
            (if item_id r \<in> (\<lambda>i. trim (String i)) ` set ids then count_list quran r else 0))))"
proof -
  obtain s' h where l: "loadAll s language = (s', h)" by (cases "loadAll s language")
  show ?thesis
    by (simp add: searchByIds_def l outcome_awaitThen fst_awaitThen count_list_filter)
qed

theorem searchByIds_filter_witness:
  "outcome loaded (snd (searchByIds loaded (Some (lit ''english'')) (Some [Str (lit ''36''), Str (lit ''1''), Str (lit ''36'')])))
     = Some (Inr [opener, yasin])"
  using searchByIds_filter [of loaded "Some (lit ''english'')" "[Str (lit ''36''), Str (lit ''1''), Str (lit ''36'')]"
      loaded "[opener, yasin, mankind]"]
  by (simp add: loadAll_loaded trims opener_def yasin_def mankind_def)

subsection \<open>Lower-casing across a final sigma\<close>

lemma key_greek: "toLowerCase (trim (lit ''greek'')) = lit ''greek''"
  by code_simp

lemma greek_eq:
  "greek = \<lparr>cache = [lit ''greek'' \<mapsto> Data [odos]],
            promises = [\<lparr>key = lit ''greek'', phase = Fulfilled [odos]\<rparr>],
            fetched = [url (lit ''greek'')]\<rparr>"
  by (simp add: greek_def run_def init_def loadAll_def fetchSettled_def jsonSettled_def
      key_greek Let_def)

lemma loadAll_greek:
  "loadAll greek (Some (lit ''greek'')) = (greek, Settled (Inr [odos]))"
  by (simp add: greek_eq loadAll_def key_greek Let_def)

lemma sigma_lower:
  "toLowerCase [0x39F, 0x394, 0x39F, 0x3A3] = [0x3BF, 0x3B4, 0x3BF, 0x3C2]"
  "toLowerCase [0x3A3] = [0x3C3]"
  "toLowerCase [0x3BF, 0x3B4, 0x3BF, 0x3C3] = [0x3BF, 0x3B4, 0x3BF, 0x3C3]"
  by code_simp+

text \<open>
  C6. \<open>searchByName\<close> and \<open>searchByPhrase\<close> lower-case the field and the query separately
  and then test containment. The title and the text of the record \<open>odos\<close> end in a capital
  sigma and contain the query, a capital sigma, as it stands; lower-cased, their sigma is
  the final sigma and the query's is not, so both searches fulfil with the empty
  sequence, not with the record.
\<close>

theorem search_final_sigma:
  "includes_str (surah odos) [0x3A3] \<and>
   includes_str (item_text odos) [0x3A3] \<and>
   outcome greek (snd (searchByName greek (Some (lit ''greek'')) (Some [0x3A3])))
     = Some (Inr []) \<and>
   outcome greek (snd (searchByPhrase greek (Some (lit ''greek'')) (Some [0x3A3])))
     = Some (Inr [])"
  by (simp add: searchByName_def searchByPhrase_def loadAll_greek odos_def sigma_lower)

subsection \<open>Normalised keys\<close>

lemma loadAll_again:
  assumes "l \<noteq> []"
  shows "loadAll (fst (loadAll s (Some l))) (Some l) = loadAll s (Some l)"
proof (cases "cache s (toLowerCase (trim l))")
  case None
  with assms show ?thesis by (simp add: loadAll_def Let_def)
next
  case (Some en)
  with assms show ?thesis by (cases en) (simp_all add: loadAll_def Let_def)
qed

lemma loadAll_same_key:
  assumes "l1 \<noteq> []" and "l2 \<noteq> []" and "toLowerCase (trim l1) = toLowerCase (trim l2)"
  shows "loadAll s (Some l1) = loadAll s (Some l2)"
  using assms by (simp add: loadAll_def)

text \<open>
  C7, as the code has it. Two non-empty languages whose cores have the same trimmed
  lower-cased form, each core surrounded by any white space, have the same normalised key:
  \<open>loadAll\<close> does the same with either in every state, and a call with the second right
  after a call with the first changes nothing (no fetch) and returns the promise or data
  of the first. The cores have the same form in particular when they are ASCII strings
  that are the same up to the case of their letters.
\<close>

theorem key_coalescing:
  assumes "\<forall>x\<in>set a. isWhiteSpace x" and "\<forall>x\<in>set b. isWhiteSpace x"
    and "\<forall>x\<in>set c. isWhiteSpace x" and "\<forall>x\<in>set d. isWhiteSpace x"
    and "sameAsciiCase m1 m2 \<or> toLowerCase (trim m1) = toLowerCase (trim m2)"
    and "a @ m1 @ b \<noteq> []" and "c @ m2 @ d \<noteq> []"
  shows "toLowerCase (trim (a @ m1 @ b)) = toLowerCase (trim (c @ m2 @ d)) \<and>
         (\<forall>t. loadAll t (Some (a @ m1 @ b)) = loadAll t (Some (c @ m2 @ d))) \<and>
         loadAll (fst (loadAll s (Some (a @ m1 @ b)))) (Some (c @ m2 @ d))
           = loadAll s (Some (a @ m1 @ b))"
proof -
  from assms(5) have core: "toLowerCase (trim m1) = toLowerCase (trim m2)"
    by (auto dest: sameAsciiCase_key)
  have "toLowerCase (trim (a @ m1 @ b)) = toLowerCase (trim m1)"
    using assms(1,2) by (simp add: trim_surrounding)
  also note core
  also have "toLowerCase (trim m2) = toLowerCase (trim (c @ m2 @ d))"
    using assms(3,4) by (simp add: trim_surrounding)
  finally have k: "toLowerCase (trim (a @ m1 @ b)) = toLowerCase (trim (c @ m2 @ d))" .
  have same: "loadAll t (Some (a @ m1 @ b)) = loadAll t (Some (c @ m2 @ d))" for t
    using assms(6,7) k by (rule loadAll_same_key)
  have "loadAll (fst (loadAll s (Some (a @ m1 @ b)))) (Some (a @ m1 @ b))
      = loadAll s (Some (a @ m1 @ b))"
    using assms(6) by (rule loadAll_again)
  with k same show ?thesis by simp
qed

lemma same_English: "sameAsciiCase (lit ''English'') (lit ''english'')"
  unfolding sameAsciiCase_def lit_def by (simp add: less_Suc_eq all_conj_distrib asciiLower_def)

theorem key_coalescing_witness:
  "loadAll (fst (loadAll init (Some (lit ''English '')))) (Some (lit ''english''))
     = loadAll init (Some (lit ''English '')) \<and>
   fetched (fst (loadAll (fst (loadAll init (Some (lit ''English '')))) (Some (lit ''english''))))
     = [url (lit ''english'')]"
proof -
  have ws: "\<forall>x\<in>set (lit '' ''). isWhiteSpace x"
    by (simp add: isWhiteSpace_def lit_def)
  have l1: "lit ''English '' = [] @ lit ''English'' @ lit '' ''"
    and l2: "lit ''english'' = [] @ lit ''english'' @ []"
    by (simp_all add: lit_def)
  have "loadAll (fst (loadAll init (Some ([] @ lit ''English'' @ lit '' ''))))
        (Some ([] @ lit ''english'' @ []))
     = loadAll init (Some ([] @ lit ''English'' @ lit '' ''))"
    by (rule key_coalescing [of "[]" "lit '' ''" "[]" "[]" "lit ''English''" "lit ''english''" init,
          THEN conjunct2, THEN conjunct2])
       (simp_all add: same_English ws)
  then have "loadAll (fst (loadAll init (Some (lit ''English '')))) (Some (lit ''english''))
     = loadAll init (Some (lit ''English ''))"
    unfolding l1 [symmetric] l2 [symmetric] .
  then show ?thesis
    by (simp add: loadAll_def init_def key_English key_english Let_def)
qed

text \<open>
  The statement for any two strings that differ only in the case of their letters fails:
  the second string below is the first one with each letter replaced by its lowercase
  letter, yet the first one's key ends in the final sigma and the second one's does not,
  so \<open>loadAll\<close> with the first and then with the second fetches two URLs.
\<close>

theorem key_coalescing_counterexample:
  "concat (map lowerMapping [0x39F, 0x394, 0x39F, 0x3A3]) = [0x3BF, 0x3B4, 0x3BF, 0x3C3] \<and>
   toLowerCase (trim [0x39F, 0x394, 0x39F, 0x3A3]) = [0x3BF, 0x3B4, 0x3BF, 0x3C2] \<and>
   toLowerCase (trim [0x3BF, 0x3B4, 0x3BF, 0x3C3]) = [0x3BF, 0x3B4, 0x3BF, 0x3C3] \<and>
   fetched (fst (loadAll (fst (loadAll init (Some [0x39F, 0x394, 0x39F, 0x3A3])))
                   (Some [0x3BF, 0x3B4, 0x3BF, 0x3C3])))
     = [url [0x3BF, 0x3B4, 0x3BF, 0x3C2], url [0x3BF, 0x3B4, 0x3BF, 0x3C3]]"
proof -
  have 1: "concat (map lowerMapping [0x39F, 0x394, 0x39F, 0x3A3]) = [0x3BF, 0x3B4, 0x3BF, 0x3C3]"
    by code_simp
  have 2: "toLowerCase (trim [0x39F, 0x394, 0x39F, 0x3A3]) = [0x3BF, 0x3B4, 0x3BF, 0x3C2]"
    by code_simp
  have 3: "toLowerCase (trim [0x3BF, 0x3B4, 0x3BF, 0x3C3]) = [0x3BF, 0x3B4, 0x3BF, 0x3C3]"
    by code_simp
  have 4: "fetched (fst (loadAll (fst (loadAll init (Some [0x39F, 0x394, 0x39F, 0x3A3])))
                   (Some [0x3BF, 0x3B4, 0x3BF, 0x3C3])))
     = [url [0x3BF, 0x3B4, 0x3BF, 0x3C2], url [0x3BF, 0x3B4, 0x3BF, 0x3C3]]"
    by (simp add: loadAll_def init_def 2 3 Let_def)
  from 1 2 3 4 show ?thesis by blast
qed

subsection \<open>Single flight\<close>













































subsection \<open>Failure and clearing\<close>


lemma asked_eq:
  "asked = \<lparr>cache = [(lit ''english'') \<mapsto> Pending 0],
            promises = [\<lparr>key = (lit ''english''), phase = AwaitFetch\<rparr>],
            fetched = [url (lit ''english'')]\<rparr>"
  by (simp add: asked_def loadAll_def init_def key_english Let_def)


text \<open>
  C3, as the code has it. \<open>clearCache\<close> empties the cache at once, whatever the entries are,
  and touches neither the promises nor the fetches. A retrieval that is in flight goes
  on: whatever happens after the clear, when its \<open>res.json()\<close> then fulfils with \<open>d\<close>, the
  cache holds \<open>d\<close> under the retrieval's key.
\<close>

theorem clearCache_then_success:
  "cache (clearCache s) = Map.empty \<and> promises (clearCache s) = promises s \<and>
   fetched (clearCache s) = fetched s \<and>
   (\<forall>p. inFlight (clearCache s) p \<longleftrightarrow> inFlight s p) \<and>
   (\<forall>evs hs t hs' p d.
      run (clearCache s, hs) evs = (t, hs') \<and> p < length (promises t) \<and>
      phase (promises t ! p) = AwaitJson \<longrightarrow>
      cache (fst (step (t, hs') (JsonSettles p (Parsed d)))) (key (promises t ! p))
        = Some (Data d))"
  by (simp add: clearCache_def jsonSettled_def inFlight_def)

text \<open>
  The statement that the result of a retrieval in flight at the time of \<open>clearCache\<close> is
  not inserted afterwards fails: \<open>loadAll("english")\<close>, then \<open>clearCache()\<close> while the
  retrieval is in flight (the cache is empty then), then the retrieval succeeds, and the
  cache holds its data under \<open>english\<close>.
\<close>

theorem clearCache_race_counterexample:
  "cache (fst (run (init, [])
      [CallLoadAll (Some (lit ''english'')), CallClearCache])) (lit ''english'') = None \<and>
   inFlight (fst (run (init, [])
      [CallLoadAll (Some (lit ''english'')), CallClearCache])) 0 \<and>
   cache (fst (run (init, [])
      [CallLoadAll (Some (lit ''english'')), CallClearCache, FetchSettles 0 (Response True 200),
       JsonSettles 0 (Parsed [opener, yasin, mankind])])) (lit ''english'')
     = Some (Data [opener, yasin, mankind])"
  by (simp add: run_def init_def loadAll_def key_english Let_def clearCache_def inFlight_def
      fetchSettled_def jsonSettled_def)

theorem clearCache_then_success_witness:
  "cache (fst (step (run (clearCache asked, []) [FetchSettles 0 (Response True 200)])
      (JsonSettles 0 (Parsed [opener])))) (lit ''english'') = Some (Data [opener])"
proof -
  let ?t = "\<lparr>cache = Map.empty,
             promises = [\<lparr>key = (lit ''english''), phase = AwaitJson\<rparr>],
             fetched = [url (lit ''english'')]\<rparr>"
  have r: "run (clearCache asked, []) [FetchSettles 0 (Response True 200)] = (?t, [])"
    by (simp add: run_def asked_eq clearCache_def fetchSettled_def)
  have "run (clearCache asked, []) [FetchSettles 0 (Response True 200)] = (?t, []) \<and>
      0 < length (promises ?t) \<and> phase (promises ?t ! 0) = AwaitJson"
    using r by simp
  with clearCache_then_success [of asked]
  have "cache (fst (step (?t, []) (JsonSettles 0 (Parsed [opener])))) (key (promises ?t ! 0))
      = Some (Data [opener])"
    by blast
  then show ?thesis
    unfolding r by simp
qed

end
